theory Spec2Isabelle
  imports Complex_Main "HOL-Library.Multiset"
begin

section \<open>Data model of the playback-control skill\<close>

text \<open>
  The skill (\<^verbatim>\<open>src/__init__.py\<close>, class \<^verbatim>\<open>PlaybackControlSkill\<close>) keeps two dictionaries
  keyed by the search phrase, \<^verbatim>\<open>query_replies\<close> and \<^verbatim>\<open>query_extensions\<close>, the flag
  \<^verbatim>\<open>has_played\<close> and the GUI value cache \<^verbatim>\<open>self.gui\<close>. Its handlers run under one lock,
  so each handler is an atomic function from the state before to the state after.

  Message payloads are Python dictionaries. The keys the code reads are modelled as the
  optional fields of a record (\<open>None\<close>: the key is absent), so that every implicit
  \<^verbatim>\<open>KeyError\<close> of an indexing \<^verbatim>\<open>d["k"]\<close> is a branch of the model. The values of
  \<^verbatim>\<open>phrase\<close> and \<^verbatim>\<open>skill_id\<close> are strings and the value of \<^verbatim>\<open>conf\<close> is a real number
  (a float that is not NaN), as the message format has them; the values the code only
  tests for truth or passes on (\<^verbatim>\<open>searching\<close>, \<^verbatim>\<open>callback_data\<close>) are arbitrary JSON
  values.
\<close>

datatype pyval =
    PNone
  | PBool bool
  | PNum real
  | PStr string
  | PList "pyval list"
  | PDict "(string \<times> pyval) list"

text \<open>Python's truth value of a JSON value (\<^verbatim>\<open>if v:\<close>, \<^verbatim>\<open>not v\<close>).\<close>

fun truthy :: "pyval \<Rightarrow> bool" where
  "truthy PNone = False"
| "truthy (PBool b) = b"
| "truthy (PNum x) = (x \<noteq> 0)"
| "truthy (PStr s) = (s \<noteq> [])"
| "truthy (PList vs) = (vs \<noteq> [])"
| "truthy (PDict kvs) = (kvs \<noteq> [])"

datatype py_error = KeyError | AttributeError

text \<open>\<^verbatim>\<open>message.data\<close> of a \<^verbatim>\<open>play:query.response\<close> or of the timeout event.\<close>

record msg_data =
  phrase :: "string option"
  skill_id :: "string option"
  conf :: "real option"
  searching :: "pyval option"
  callback_data :: "pyval option"

text \<open>
  A bus message: its payload, and the answer of the framework's policy check
  \<^verbatim>\<open>self.neon_in_request(message)\<close>, which depends on the message's context only.
\<close>

record message =
  data :: msg_data
  neon_in_request :: bool

text \<open>
  What a handler does to its collaborators (the message bus, the event scheduler, the
  GUI, the speech output, the log), in the order of the calls. The only scheduled handler
  is \<^verbatim>\<open>_play_query_timeout\<close> with payload \<^verbatim>\<open>{"phrase": p}\<close>; \<open>Schedule_event name delay p\<close>
  records that call.
\<close>

datatype action =
    Speak_dialog string "(string \<times> string) list"
  | Emit_play_query string
  | Emit_play_start string string pyval
  | Schedule_event string nat string
  | Cancel_scheduled_event string
  | Gui_show_page string
  | Log_track_info string string string

record engine =
  query_replies :: "string \<rightharpoonup> msg_data list"
  query_extensions :: "string \<rightharpoonup> string list"
  has_played :: bool
  gui :: "string \<rightharpoonup> string"

text \<open>
  The result of running a handler: the exception that left it (if any), the calls it
  made before, and the state it left behind. A handler that raises keeps the mutations
  it made before the raise.
\<close>

record outcome =
  raised :: "py_error option"
  actions :: "action list"
  state :: engine

definition STATUS_KEYS :: "string list" where
  "STATUS_KEYS = [''track'', ''artist'', ''album'', ''image'']"

section \<open>Initialisation\<close>

text \<open>\<^verbatim>\<open>clear_gui_info\<close>: every status key of the GUI cache becomes the empty string.\<close>

fun clear_gui_info_loop :: "string list \<Rightarrow> (string \<rightharpoonup> string) \<Rightarrow> (string \<rightharpoonup> string)" where
  "clear_gui_info_loop [] g = g"
| "clear_gui_info_loop (k # ks) g = clear_gui_info_loop ks (g(k \<mapsto> ''''))"

definition clear_gui_info :: "engine \<Rightarrow> engine" where
  "clear_gui_info s = s\<lparr>gui := clear_gui_info_loop STATUS_KEYS (gui s)\<rparr>"

text \<open>The state after \<^verbatim>\<open>__init__\<close> and \<^verbatim>\<open>initialize\<close>.\<close>

definition init_engine :: engine where
  "init_engine =
     clear_gui_info
       \<lparr>query_replies = Map.empty, query_extensions = Map.empty,
        has_played = False, gui = Map.empty\<rparr>"

section \<open>Opening a session: \<^verbatim>\<open>play\<close>\<close>

text \<open>
  \<^verbatim>\<open>play\<close> first speaks \<^verbatim>\<open>one_moment\<close> when the hesitation signal is set (\<open>hesitation\<close>),
  then extracts the phrase from the utterance with a regular expression. The extraction
  is the framework's and the regex library's work: its result, the phrase or the
  exception it raised, is the parameter \<open>extracted\<close>.
\<close>

definition play :: "bool \<Rightarrow> py_error + string \<Rightarrow> engine \<Rightarrow> outcome" where
  "play hesitation extracted s =
     (let spoken = (if hesitation then [Speak_dialog ''one_moment'' []] else []) in
      case extracted of
        Inl e \<Rightarrow> \<lparr>raised = Some e, actions = spoken, state = s\<rparr>
      | Inr p \<Rightarrow>
          \<lparr>raised = None,
           actions = spoken @ [Emit_play_query p, Schedule_event ''PlayQueryTimeout'' 1 p],
           state = s\<lparr>query_replies := (query_replies s)(p \<mapsto> []),
                     query_extensions := (query_extensions s)(p \<mapsto> [])\<rparr>\<rparr>)"

section \<open>Collecting bids and extension signals: \<^verbatim>\<open>handle_play_query_response\<close>\<close>

text \<open>
  The first branch (the message has a \<^verbatim>\<open>searching\<close> key and the phrase is a key of
  \<^verbatim>\<open>query_extensions\<close>); \<open>exts\<close> is \<^verbatim>\<open>query_extensions[search_phrase]\<close> on entry.
  \<^verbatim>\<open>list.remove\<close> removes the first occurrence, which is \<^const>\<open>remove1\<close>.
\<close>

definition manage_extension ::
  "string \<Rightarrow> pyval \<Rightarrow> string list \<Rightarrow> msg_data \<Rightarrow> engine \<Rightarrow> outcome" where
  "manage_extension search_phrase flag exts d s =
     (case skill_id d of
        None \<Rightarrow> \<lparr>raised = Some KeyError, actions = [], state = s\<rparr>
      | Some sid \<Rightarrow>
          if truthy flag then
            \<lparr>raised = None,
             actions = [Cancel_scheduled_event ''PlayQueryTimeout'',
                        Schedule_event ''PlayQueryTimeout'' 5 search_phrase],
             state = (if sid \<notin> set exts
                      then s\<lparr>query_extensions :=
                               (query_extensions s)(search_phrase \<mapsto> exts @ [sid])\<rparr>
                      else s)\<rparr>
          else if sid \<in> set exts then
            \<lparr>raised = None,
             actions = (if remove1 sid exts = []
                        then [Cancel_scheduled_event ''PlayQueryTimeout'',
                              Schedule_event ''PlayQueryTimeout'' 1 search_phrase]
                        else []),
             state = s\<lparr>query_extensions :=
                         (query_extensions s)(search_phrase \<mapsto> remove1 sid exts)\<rparr>\<rparr>
          else \<lparr>raised = None, actions = [], state = s\<rparr>)"

text \<open>
  The second branch (the phrase is a key of \<^verbatim>\<open>query_replies\<close>); \<open>replies\<close> is
  \<^verbatim>\<open>query_replies[search_phrase]\<close> on entry. The payload is appended first; the two
  indexings after it can raise, and then the appended reply stays.
\<close>

definition collect_reply ::
  "string \<Rightarrow> msg_data list \<Rightarrow> msg_data \<Rightarrow> engine \<Rightarrow> outcome" where
  "collect_reply search_phrase replies d s =
     (let s1 = s\<lparr>query_replies := (query_replies s)(search_phrase \<mapsto> replies @ [d])\<rparr> in
      case skill_id d of
        None \<Rightarrow> \<lparr>raised = Some KeyError, actions = [], state = s1\<rparr>
      | Some sid \<Rightarrow>
          (case query_extensions s1 search_phrase of
             None \<Rightarrow> \<lparr>raised = Some KeyError, actions = [], state = s1\<rparr>
           | Some exts \<Rightarrow>
               if sid \<in> set exts then
                 \<lparr>raised = None,
                  actions = (if remove1 sid exts = []
                             then [Cancel_scheduled_event ''PlayQueryTimeout'',
                                   Schedule_event ''PlayQueryTimeout'' 0 search_phrase]
                             else []),
                  state = s1\<lparr>query_extensions :=
                               (query_extensions s1)(search_phrase \<mapsto> remove1 sid exts)\<rparr>\<rparr>
               else \<lparr>raised = None, actions = [], state = s1\<rparr>))"

definition handle_play_query_response :: "message \<Rightarrow> engine \<Rightarrow> outcome" where
  "handle_play_query_response m s =
     (case phrase (data m) of
        None \<Rightarrow> \<lparr>raised = Some KeyError, actions = [], state = s\<rparr>
      | Some search_phrase \<Rightarrow>
          (case (searching (data m), query_extensions s search_phrase) of
             (Some flag, Some exts) \<Rightarrow> manage_extension search_phrase flag exts (data m) s
           | _ \<Rightarrow>
               (case query_replies s search_phrase of
                  Some replies \<Rightarrow> collect_reply search_phrase replies (data m) s
                | None \<Rightarrow> \<lparr>raised = None, actions = [], state = s\<rparr>)))"

section \<open>Resolution: \<^verbatim>\<open>_play_query_timeout\<close>\<close>

text \<open>
  The winner scan, the \<^verbatim>\<open>for handler in self.query_replies[search_phrase]\<close> loop, with
  its two loop variables \<open>best\<close> and \<open>ties\<close>. The debug line of the loop body reads
  \<^verbatim>\<open>handler["conf"]\<close> and \<^verbatim>\<open>handler["skill_id"]\<close>, so a reply without one of them raises.
  \<^verbatim>\<open>not best\<close> holds for \<^verbatim>\<open>None\<close> only: a dictionary stored in \<open>best\<close> has passed that
  line, so it has a key and is true.
\<close>

fun scan ::
  "msg_data list \<Rightarrow> msg_data option \<Rightarrow> msg_data list \<Rightarrow>
     py_error + (msg_data option \<times> msg_data list)" where
  "scan [] best ties = Inr (best, ties)"
| "scan (handler # rest) best ties =
     (case conf handler of
        None \<Rightarrow> Inl KeyError
      | Some c \<Rightarrow>
          (case skill_id handler of
             None \<Rightarrow> Inl KeyError
           | Some sid \<Rightarrow>
               (case best of
                  None \<Rightarrow> scan rest (Some handler) []
                | Some b \<Rightarrow>
                    (case conf b of
                       None \<Rightarrow> Inl KeyError
                     | Some cb \<Rightarrow>
                         if c > cb then scan rest (Some handler) []
                         else if c = cb then scan rest best (ties @ [handler])
                         else scan rest best ties))))"

text \<open>
  \<^verbatim>\<open>random.choice(skills)\<close> returns one element of the non-empty list; which one is the
  parameter \<open>rnd\<close>, the number the random source drew.
\<close>

definition random_choice :: "nat \<Rightarrow> 'a list \<Rightarrow> 'a" where
  "random_choice rnd xs = xs ! (rnd mod length xs)"

text \<open>The branch \<^verbatim>\<open>if ties: ... else: selected = best\<close>.\<close>

definition select_winner :: "nat \<Rightarrow> msg_data \<Rightarrow> msg_data list \<Rightarrow> msg_data" where
  "select_winner rnd best ties =
     (if ties \<noteq> [] then random_choice rnd (ties @ [best]) else best)"

text \<open>
  \<^verbatim>\<open>b.get("callback_data", {}).get("skill_gui", False)\<close>, as the truth value the code tests.
  A \<^verbatim>\<open>callback_data\<close> that is present but not a dictionary has no \<^verbatim>\<open>get\<close>.
\<close>

definition skill_gui_flag :: "msg_data \<Rightarrow> py_error + bool" where
  "skill_gui_flag b =
     (case callback_data b of
        None \<Rightarrow> Inr False
      | Some (PDict kvs) \<Rightarrow>
          Inr (case map_of kvs ''skill_gui'' of None \<Rightarrow> False | Some v \<Rightarrow> truthy v)
      | Some _ \<Rightarrow> Inl AttributeError)"

text \<open>\<^verbatim>\<open>selected.get("callback_data")\<close>: Python's \<^verbatim>\<open>None\<close> when the key is absent.\<close>

definition get_callback_data :: "msg_data \<Rightarrow> pyval" where
  "get_callback_data b = (case callback_data b of None \<Rightarrow> PNone | Some v \<Rightarrow> v)"

text \<open>The two guarded \<^verbatim>\<open>del\<close> statements that end the handler.\<close>

definition close_session :: "string \<Rightarrow> engine \<Rightarrow> engine" where
  "close_session search_phrase s =
     s\<lparr>query_replies := (query_replies s)(search_phrase := None),
       query_extensions := (query_extensions s)(search_phrase := None)\<rparr>"

text \<open>
  The branch \<^verbatim>\<open>if best:\<close> of the handler, for \<open>best = b\<close>; \<open>s1\<close> is the state after the
  pending extensions of the phrase were reset. The generic page is decided from \<open>b\<close>,
  the event is built from the selected bid.
\<close>

definition dispatch ::
  "nat \<Rightarrow> string \<Rightarrow> msg_data \<Rightarrow> msg_data list \<Rightarrow> engine \<Rightarrow> outcome" where
  "dispatch rnd search_phrase b ties s1 =
     (let selected = select_winner rnd b ties in
      case skill_gui_flag b of
        Inl e \<Rightarrow> \<lparr>raised = Some e, actions = [], state = s1\<rparr>
      | Inr own_gui \<Rightarrow>
          (let shown = (if \<not> own_gui then [Gui_show_page ''controls.qml''] else []) in
           case skill_id selected of
             None \<Rightarrow> \<lparr>raised = Some KeyError, actions = shown, state = s1\<rparr>
           | Some sid \<Rightarrow>
               \<lparr>raised = None,
                actions = shown @
                  [Emit_play_start sid search_phrase (get_callback_data selected)],
                state = close_session search_phrase (s1\<lparr>has_played := True\<rparr>)\<rparr>))"

definition play_query_timeout :: "nat \<Rightarrow> message \<Rightarrow> engine \<Rightarrow> outcome" where
  "play_query_timeout rnd m s =
     (case phrase (data m) of
        None \<Rightarrow> \<lparr>raised = Some KeyError, actions = [], state = s\<rparr>
      | Some search_phrase \<Rightarrow>
          (let s1 = s\<lparr>query_extensions := (query_extensions s)(search_phrase \<mapsto> [])\<rparr> in
           case query_replies s1 search_phrase of
             None \<Rightarrow> \<lparr>raised = Some KeyError, actions = [], state = s1\<rparr>
           | Some replies \<Rightarrow>
               (case scan replies None [] of
                  Inl e \<Rightarrow> \<lparr>raised = Some e, actions = [], state = s1\<rparr>
                | Inr (Some b, ties) \<Rightarrow> dispatch rnd search_phrase b ties s1
                | Inr (None, ties) \<Rightarrow>
                    \<lparr>raised = None,
                     actions = (if neon_in_request m
                                then [Speak_dialog ''cant.play'' [(''phrase'', search_phrase)]]
                                else []),
                     state = close_session search_phrase s1\<rparr>)))"

section \<open>Track information: \<^verbatim>\<open>handle_song_info\<close>\<close>

text \<open>
  The loop over \<^verbatim>\<open>STATUS_KEYS\<close>, with the flag \<open>changed\<close> and the GUI cache as loop
  variables; \<open>md\<close> is the payload of the \<^verbatim>\<open>play:status\<close> message, its values strings, and
  \<open>status_value md k\<close> is \<^verbatim>\<open>message.data.get(k, '')\<close>. Reading a key the cache does not hold
  raises \<^verbatim>\<open>KeyError\<close>, which the loop body catches and counts as a change.
\<close>

definition status_value :: "(string \<rightharpoonup> string) \<Rightarrow> string \<Rightarrow> string" where
  "status_value md k = (case md k of None \<Rightarrow> '''' | Some x \<Rightarrow> x)"

fun song_info_loop ::
  "string list \<Rightarrow> (string \<rightharpoonup> string) \<Rightarrow> bool \<Rightarrow> (string \<rightharpoonup> string) \<Rightarrow>
     bool \<times> (string \<rightharpoonup> string)" where
  "song_info_loop [] md changed g = (changed, g)"
| "song_info_loop (k # ks) md changed g =
     (let v = status_value md k;
          changed' = (changed \<or> (case g k of None \<Rightarrow> True | Some old \<Rightarrow> old \<noteq> v))
      in song_info_loop ks md changed' (g(k \<mapsto> v)))"

text \<open>
  The handler logs the track when \<open>changed\<close> is set; that log line is its "changed"
  signal. The line reads the keys \<^verbatim>\<open>track\<close>, \<^verbatim>\<open>artist\<close> and \<^verbatim>\<open>image\<close> of the cache, which
  the loop has just stored (\<open>cached\<close> reads a stored key).
\<close>

definition cached :: "(string \<rightharpoonup> string) \<Rightarrow> string \<Rightarrow> string" where
  "cached g k = (case g k of None \<Rightarrow> '''' | Some x \<Rightarrow> x)"

definition handle_song_info :: "(string \<rightharpoonup> string) \<Rightarrow> engine \<Rightarrow> outcome" where
  "handle_song_info md s =
     (case song_info_loop STATUS_KEYS md False (gui s) of
        (changed, g) \<Rightarrow>
          \<lparr>raised = None,
           actions = (if changed
                      then [Log_track_info (cached g ''track'') (cached g ''artist'')
                              (cached g ''image'')]
                      else []),
           state = s\<lparr>gui := g\<rparr>\<rparr>)"

section \<open>Runs of the engine\<close>

text \<open>
  The three operations on the session tables, as events. A run executes them one
  after the other; the host framework catches an exception that leaves a handler, so
  the next event finds the state the failed handler left.
\<close>

datatype event =
    Play bool "py_error + string"
  | Query_response message
  | Query_timeout nat message

fun exec :: "event \<Rightarrow> engine \<Rightarrow> outcome" where
  "exec (Play hesitation extracted) s = play hesitation extracted s"
| "exec (Query_response m) s = handle_play_query_response m s"
| "exec (Query_timeout rnd m) s = play_query_timeout rnd m s"

fun run :: "event list \<Rightarrow> engine \<Rightarrow> engine" where
  "run [] s = s"
| "run (e # es) s = run es (state (exec e s))"

text \<open>A reply that has both keys the winner scan reads.\<close>

definition well_formed_bid :: "msg_data \<Rightarrow> bool" where
  "well_formed_bid b = (conf b \<noteq> None \<and> skill_id b \<noteq> None)"

text \<open>
  The invariant of the session tables: every phrase with a replies list has a
  pending-extensions list.
\<close>

definition session_inv :: "engine \<Rightarrow> bool" where
  "session_inv s = (dom (query_replies s) \<subseteq> dom (query_extensions s))"

text \<open>No pending-extensions list holds a provider twice.\<close>

definition extensions_distinct :: "engine \<Rightarrow> bool" where
  "extensions_distinct s = (\<forall>p es. query_extensions s p = Some es \<longrightarrow> distinct es)"

section \<open>Messages and sessions of the examples\<close>

text \<open>
  The payloads the protocol exchanges, as the comments of \<^verbatim>\<open>play\<close> describe them: a final
  bid, an extension signal and the payload of the timeout event.
\<close>

definition bid :: "string \<Rightarrow> string \<Rightarrow> real \<Rightarrow> pyval option \<Rightarrow> msg_data" where
  "bid p sid c cb =
     \<lparr>phrase = Some p, skill_id = Some sid, conf = Some c, searching = None,
      callback_data = cb\<rparr>"

definition extension_signal :: "string \<Rightarrow> string \<Rightarrow> bool \<Rightarrow> msg_data" where
  "extension_signal p sid still_searching =
     \<lparr>phrase = Some p, skill_id = Some sid, conf = None,
      searching = Some (PBool still_searching), callback_data = None\<rparr>"

definition timeout_data :: "string \<Rightarrow> msg_data" where
  "timeout_data p =
     \<lparr>phrase = Some p, skill_id = None, conf = None, searching = None,
      callback_data = None\<rparr>"

definition msg :: "msg_data \<Rightarrow> message" where
  "msg d = \<lparr>data = d, neon_in_request = True\<rparr>"

definition own_gui_data :: pyval where
  "own_gui_data = PDict [(''skill_gui'', PBool True)]"

text \<open>An open session for \<open>p\<close> with the given replies and pending extensions.\<close>

definition session :: "string \<Rightarrow> msg_data list \<Rightarrow> string list \<Rightarrow> engine" where
  "session p rs es =
     init_engine\<lparr>query_replies := [p \<mapsto> rs], query_extensions := [p \<mapsto> es]\<rparr>"

section \<open>Facts about the example data\<close>

lemma bid_simps:
  "phrase (bid p sid c cb) = Some p" "skill_id (bid p sid c cb) = Some sid"
  "conf (bid p sid c cb) = Some c" "searching (bid p sid c cb) = None"
  "callback_data (bid p sid c cb) = cb"
  by (simp_all add: bid_def)

lemma bid_well_formed: "well_formed_bid (bid p sid c cb)"
  by (simp add: well_formed_bid_def bid_def)

lemma init_engine_simps:
  "query_replies init_engine = Map.empty" "query_extensions init_engine = Map.empty"
  "has_played init_engine = False"
  by (simp_all add: init_engine_def clear_gui_info_def)

lemma session_simps:
  "query_replies (session p rs es) = [p \<mapsto> rs]"
  "query_extensions (session p rs es) = [p \<mapsto> es]"
  "has_played (session p rs es) = False"
  by (simp_all add: session_def init_engine_simps)

section \<open>The winner scan\<close>

text \<open>
  Once \<open>best\<close> holds a bid that no later reply exceeds, the scan keeps it and appends to
  \<open>ties\<close> the later replies of equal confidence, in arrival order.
\<close>

lemma scan_dominated:
  "\<lbrakk>\<forall>h\<in>set hs. well_formed_bid h \<and> the (conf h) \<le> c0; conf b0 = Some c0\<rbrakk>
   \<Longrightarrow> scan hs (Some b0) t0 = Inr (Some b0, t0 @ filter (\<lambda>h. conf h = Some c0) hs)"
  by (induction hs arbitrary: t0) (auto simp: well_formed_bid_def)

text \<open>
  While the replies stay below a later bid \<open>b\<close>, whatever \<open>best\<close> and \<open>ties\<close> hold is
  discarded when \<open>b\<close> arrives.
\<close>

lemma scan_climb:
  "\<lbrakk>\<forall>x\<in>set xs. well_formed_bid x \<and> the (conf x) < cb; conf b0 = Some c0; c0 < cb;
    conf b = Some cb; skill_id b \<noteq> None;
    \<forall>y\<in>set ys. well_formed_bid y \<and> the (conf y) \<le> cb\<rbrakk>
   \<Longrightarrow> scan (xs @ b # ys) (Some b0) t0 = Inr (Some b, filter (\<lambda>h. conf h = Some cb) ys)"
proof (induction xs arbitrary: b0 c0 t0)
  case Nil
  then show ?case
    using scan_dominated[of ys cb b "[]"] by auto
next
  case (Cons x xs)
  then show ?case
    by (auto simp: well_formed_bid_def)
qed

lemma scan_first_max:
  assumes lower: "\<forall>x\<in>set xs. well_formed_bid x \<and> the (conf x) < cb"
    and b: "conf b = Some cb" "skill_id b \<noteq> None"
    and upper: "\<forall>y\<in>set ys. well_formed_bid y \<and> the (conf y) \<le> cb"
  shows "scan (xs @ b # ys) None [] = Inr (Some b, filter (\<lambda>h. conf h = Some cb) ys)"
proof (cases xs)
  case Nil
  then show ?thesis
    using b upper scan_dominated[of ys cb b "[]"] by auto
next
  case (Cons x xs')
  from lower Cons obtain c where c: "conf x = Some c" "c < cb" "skill_id x \<noteq> None"
    by (auto simp: well_formed_bid_def)
  from lower Cons have rest: "\<forall>x\<in>set xs'. well_formed_bid x \<and> the (conf x) < cb"
    by simp
  show ?thesis
    using scan_climb[OF rest c(1) c(2) b upper, of "[]"] c Cons by auto
qed

text \<open>
  Every non-empty list has a first element of maximal value: the shape of the replies
  that \<open>scan_first_max\<close> asks for.
\<close>

lemma first_maximum_exists:
  assumes "rs \<noteq> []"
  shows "\<exists>xs b ys. rs = xs @ b # ys \<and> (\<forall>x\<in>set xs. f x < f b) \<and>
           (\<forall>y\<in>set ys. f y \<le> (f b :: real))"
proof -
  define mx where "mx = Max (f ` set rs)"
  have "mx \<in> f ` set rs"
    unfolding mx_def using assms by (intro Max_in) auto
  then have "\<exists>x\<in>set rs. f x = mx"
    by auto
  then obtain xs b ys where d: "rs = xs @ b # ys" "f b = mx" "\<forall>x\<in>set xs. f x \<noteq> mx"
    by (auto dest!: split_list_first_prop)
  have le: "\<forall>x\<in>set rs. f x \<le> mx"
    unfolding mx_def by simp
  have "\<forall>x\<in>set xs. f x < f b"
    using d le by (auto simp: less_le)
  moreover have "\<forall>y\<in>set ys. f y \<le> f b"
    using d le by auto
  ultimately show ?thesis
    using d(1) by blast
qed

text \<open>
  A list of well-formed replies in which the replies at two positions \<open>i < j\<close> share
  the maximal confidence splits at its first maximal reply, and a reply after the split
  ties with it.
\<close>

lemma shared_maximum_decomposes:
  assumes wf: "\<forall>x\<in>set rs. well_formed_bid x"
    and ij: "i < j" "j < length rs"
    and eq: "conf (rs ! i) = conf (rs ! j)"
    and mx: "\<forall>x\<in>set rs. the (conf x) \<le> the (conf (rs ! i))"
  shows "\<exists>xs b ys cb. rs = xs @ b # ys \<and>
           (\<forall>x\<in>set xs. well_formed_bid x \<and> the (conf x) < cb) \<and>
           conf b = Some cb \<and> skill_id b \<noteq> None \<and>
           (\<forall>y\<in>set ys. well_formed_bid y \<and> the (conf y) \<le> cb) \<and>
           (\<exists>y\<in>set ys. conf y = Some cb)"
proof -
  let ?f = "\<lambda>x. the (conf x)"
  from ij have "rs \<noteq> []"
    by auto
  from first_maximum_exists[OF this, of ?f]
  obtain xs b ys where d: "rs = xs @ b # ys"
    and lo: "\<forall>x\<in>set xs. ?f x < ?f b" and hi: "\<forall>y\<in>set ys. ?f y \<le> ?f b"
    by blast
  have "well_formed_bid b"
    using wf d by simp
  then have cb: "conf b = Some (?f b)" "skill_id b \<noteq> None"
    by (auto simp: well_formed_bid_def)
  have below: "?f b \<le> ?f (rs ! i)"
    using mx d by simp
  have i_ge: "\<not> i < length xs"
  proof
    assume "i < length xs"
    then have "rs ! i \<in> set xs"
      by (simp add: d nth_append)
    with lo have "?f (rs ! i) < ?f b"
      by blast
    with below show False
      by simp
  qed
  with ij have j_gt: "length xs < j"
    by simp
  then have "rs ! j = ys ! (j - Suc (length xs))"
    by (simp add: d nth_append)
  moreover have "j - Suc (length xs) < length ys"
    using ij(2) j_gt by (simp add: d)
  ultimately have j_in: "rs ! j \<in> set ys"
    by simp
  have "i < length rs"
    using ij by simp
  then have "rs ! i \<in> set rs"
    by simp
  moreover have "\<forall>x\<in>set rs. ?f x \<le> ?f b"
    using lo hi by (auto simp: d less_imp_le)
  ultimately have "?f (rs ! i) \<le> ?f b"
    by blast
  with below have "?f (rs ! i) = ?f b"
    by simp
  moreover have "well_formed_bid (rs ! j)"
    using wf j_in d by simp
  ultimately have "conf (rs ! j) = Some (?f b)"
    using eq by (auto simp: well_formed_bid_def)
  with j_in have tie: "\<exists>y\<in>set ys. conf y = Some (?f b)"
    by blast
  have "\<forall>x\<in>set xs. well_formed_bid x \<and> ?f x < ?f b"
    using wf lo d by simp
  moreover have "\<forall>y\<in>set ys. well_formed_bid y \<and> ?f y \<le> ?f b"
    using wf hi d by simp
  ultimately show ?thesis
    using d cb tie by blast
qed

text \<open>The random choice returns a bid of the list it is given.\<close>

lemma random_choice_mem: "xs \<noteq> [] \<Longrightarrow> random_choice rnd xs \<in> set xs"
  by (simp add: random_choice_def)

lemma select_winner_mem: "select_winner rnd b ties \<in> set ties \<union> {b}"
  using random_choice_mem[of "ties @ [b]" rnd] by (auto simp: select_winner_def)

section \<open>Resolution with replies\<close>

lemma close_after_reset:
  "close_session p (s\<lparr>query_extensions := (query_extensions s)(p \<mapsto> es)\<rparr>) = close_session p s"
  by (simp add: close_session_def)

lemma close_after_reset_played:
  "close_session p (s\<lparr>query_extensions := (query_extensions s)(p \<mapsto> es), has_played := True\<rparr>)
     = close_session p (s\<lparr>has_played := True\<rparr>)"
  by (simp add: close_session_def)

lemma close_example_session:
  "close_session p (session p rs es\<lparr>has_played := True\<rparr>) = init_engine\<lparr>has_played := True\<rparr>"
  by (simp add: close_session_def session_def init_engine_def clear_gui_info_def)

lemma timeout_dispatches:
  assumes "phrase (data m) = Some p" and "query_replies s p = Some rs"
    and "scan rs None [] = Inr (Some b, ties)"
  shows "play_query_timeout rnd m s =
           dispatch rnd p b ties (s\<lparr>query_extensions := (query_extensions s)(p \<mapsto> [])\<rparr>)"
  using assms by (simp add: play_query_timeout_def)

text \<open>
  Let the replies of the session for \<open>p\<close> be any arrangement \<open>rs\<close> of the bid \<open>b\<close> and the
  bids \<open>M\<close>, every one of which has a confidence strictly below that of \<open>b\<close>, so that \<open>b\<close>
  is the only bid of maximal confidence. Then the scan ends with \<open>best = b\<close> and no
  ties. If moreover the \<^verbatim>\<open>callback_data\<close> of \<open>b\<close> is absent or a dictionary, so that
  reading its \<^verbatim>\<open>skill_gui\<close> flag gives a truth value \<open>own_gui\<close>, the timeout emits
  \<^verbatim>\<open>play:start\<close> with the \<^verbatim>\<open>skill_id\<close> of \<open>b\<close>, the phrase \<open>p\<close> and the \<^verbatim>\<open>callback_data\<close> of
  \<open>b\<close>, sets \<^verbatim>\<open>has_played\<close> and closes the session.
\<close>

theorem unique_maximum_wins:
  assumes "phrase (data m) = Some p"
    and "query_replies s p = Some rs"
    and "mset rs = add_mset b M"
    and "conf b = Some cb" and "skill_id b = Some sid"
    and "\<forall>x\<in>#M. well_formed_bid x \<and> the (conf x) < cb"
    and "skill_gui_flag b = Inr own_gui"
  shows "scan rs None [] = Inr (Some b, []) \<and>
         play_query_timeout rnd m s =
           \<lparr>raised = None,
            actions = (if \<not> own_gui then [Gui_show_page ''controls.qml''] else []) @
                      [Emit_play_start sid p (get_callback_data b)],
            state = close_session p (s\<lparr>has_played := True\<rparr>)\<rparr>"
proof -
  have "b \<in># mset rs"
    unfolding assms(3) by simp
  then have "b \<in> set rs"
    by simp
  then obtain xs ys where rs: "rs = xs @ b # ys"
    by (auto dest: split_list)
  with assms(3) have M: "M = mset xs + mset ys"
    by simp
  have lo: "\<forall>x\<in>set xs. well_formed_bid x \<and> the (conf x) < cb"
    using assms(6) M by simp
  have hi: "\<forall>y\<in>set ys. well_formed_bid y \<and> the (conf y) < cb"
    using assms(6) M by simp
  then have hi': "\<forall>y\<in>set ys. well_formed_bid y \<and> the (conf y) \<le> cb"
    by auto
  have none: "filter (\<lambda>h. conf h = Some cb) ys = []"
    using hi by (auto simp: filter_empty_conv)
  have sc: "scan rs None [] = Inr (Some b, [])"
    using scan_first_max[OF lo assms(4) _ hi'] assms(5) none rs by simp
  show ?thesis
    using sc timeout_dispatches[OF assms(1,2) sc, of rnd] assms(5,7)
    by (simp add: dispatch_def select_winner_def close_after_reset_played)
qed

text \<open>
  The scenario "jazz": provider A bids 0.6, provider B bids 0.9 and brings its own GUI.
  B wins in both arrival orders.
\<close>

theorem unique_maximum_wins_witness:
  "play_query_timeout 0 (msg (timeout_data ''jazz''))
       (session ''jazz''
          [bid ''jazz'' ''A'' 0.6 None, bid ''jazz'' ''B'' 0.9 (Some own_gui_data)] [])
     = \<lparr>raised = None,
        actions = [Emit_play_start ''B'' ''jazz'' own_gui_data],
        state = init_engine\<lparr>has_played := True\<rparr>\<rparr>
   \<and> play_query_timeout 0 (msg (timeout_data ''jazz''))
       (session ''jazz''
          [bid ''jazz'' ''B'' 0.9 (Some own_gui_data), bid ''jazz'' ''A'' 0.6 None] [])
     = \<lparr>raised = None,
        actions = [Emit_play_start ''B'' ''jazz'' own_gui_data],
        state = init_engine\<lparr>has_played := True\<rparr>\<rparr>"
proof -
  let ?A = "bid ''jazz'' ''A'' 0.6 None"
  let ?B = "bid ''jazz'' ''B'' 0.9 (Some own_gui_data)"
  let ?m = "msg (timeout_data ''jazz'')"
  have flag: "skill_gui_flag ?B = Inr True"
    by (simp add: skill_gui_flag_def bid_def own_gui_data_def)
  have lower: "\<forall>x\<in>#{#?A#}. well_formed_bid x \<and> the (conf x) < 0.9"
    by (simp add: well_formed_bid_def bid_def)
  have "play_query_timeout 0 ?m (session ''jazz'' [?A, ?B] [])
     = \<lparr>raised = None,
        actions = [Emit_play_start ''B'' ''jazz'' own_gui_data],
        state = init_engine\<lparr>has_played := True\<rparr>\<rparr>"
    using unique_maximum_wins[of ?m "''jazz''" "session ''jazz'' [?A, ?B] []"
        "[?A, ?B]" ?B "{#?A#}" "0.9" "''B''" True 0, OF _ _ _ _ _ lower flag]
      close_example_session
    by (simp add: msg_def timeout_data_def session_def bid_def get_callback_data_def)
  moreover have "play_query_timeout 0 ?m (session ''jazz'' [?B, ?A] [])
     = \<lparr>raised = None,
        actions = [Emit_play_start ''B'' ''jazz'' own_gui_data],
        state = init_engine\<lparr>has_played := True\<rparr>\<rparr>"
    using unique_maximum_wins[of ?m "''jazz''" "session ''jazz'' [?B, ?A] []"
        "[?B, ?A]" ?B "{#?A#}" "0.9" "''B''" True 0, OF _ _ _ _ _ lower flag]
      close_example_session
    by (simp add: msg_def timeout_data_def session_def bid_def get_callback_data_def)
  ultimately show ?thesis
    by simp
qed

text \<open>
  C1. A session whose replies have exactly one bid of maximal confidence should be
  resolved by a \<^verbatim>\<open>play:start\<close> event for that bid. It is not when the \<^verbatim>\<open>callback_data\<close> of
  that bid is present but not a dictionary. For "jazz", A bids 0.6 and B bids 0.9 with
  \<^verbatim>\<open>callback_data\<close> set to Python's \<^verbatim>\<open>None\<close>, the value the handler itself puts into
  \<^verbatim>\<open>play:start\<close> for a bid without \<^verbatim>\<open>callback_data\<close>. The scan selects B, no tie. The GUI
  test reads \<^verbatim>\<open>best.get("callback_data", {})\<close>, whose default covers the absent key only:
  it yields \<^verbatim>\<open>None\<close>, and \<^verbatim>\<open>.get\<close> on it raises \<^verbatim>\<open>AttributeError\<close>. Whatever the random
  source draws, the handler emits nothing, leaves \<^verbatim>\<open>has_played\<close> unset and the session
  open.
\<close>

theorem unique_maximum_not_dispatched:
  "scan [bid ''jazz'' ''A'' 0.6 None, bid ''jazz'' ''B'' 0.9 (Some PNone)] None []
     = Inr (Some (bid ''jazz'' ''B'' 0.9 (Some PNone)), []) \<and>
   play_query_timeout rnd (msg (timeout_data ''jazz''))
       (session ''jazz'' [bid ''jazz'' ''A'' 0.6 None, bid ''jazz'' ''B'' 0.9 (Some PNone)] [])
     = \<lparr>raised = Some AttributeError, actions = [],
        state = session ''jazz''
                  [bid ''jazz'' ''A'' 0.6 None, bid ''jazz'' ''B'' 0.9 (Some PNone)] []\<rparr>"
proof -
  let ?A = "bid ''jazz'' ''A'' 0.6 None"
  let ?B = "bid ''jazz'' ''B'' 0.9 (Some PNone)"
  have sc: "scan [?A, ?B] None [] = Inr (Some ?B, [])"
    by (simp add: bid_def)
  have flag: "skill_gui_flag ?B = Inl AttributeError"
    by (simp add: skill_gui_flag_def bid_def)
  have same: "session ''jazz'' [?A, ?B] []
                \<lparr>query_extensions :=
                   (query_extensions (session ''jazz'' [?A, ?B] []))(''jazz'' \<mapsto> [])\<rparr>
              = session ''jazz'' [?A, ?B] []"
    by (simp add: session_def)
  have "dispatch rnd ''jazz'' ?B [] s1 = \<lparr>raised = Some AttributeError, actions = [], state = s1\<rparr>"
    for s1
    by (simp add: dispatch_def flag)
  then show ?thesis
    using sc timeout_dispatches[of "msg (timeout_data ''jazz'')" "''jazz''"
        "session ''jazz'' [?A, ?B] []" "[?A, ?B]" ?B "[]" rnd, OF _ _ sc] same
    by (simp add: msg_def timeout_data_def session_simps)
qed

text \<open>
  Reading the \<^verbatim>\<open>skill_gui\<close> flag succeeds exactly when \<^verbatim>\<open>callback_data\<close> is absent or a
  dictionary, and fails with \<^verbatim>\<open>AttributeError\<close> otherwise.
\<close>

lemma skill_gui_flag_ok:
  "(\<exists>own_gui. skill_gui_flag b = Inr own_gui) =
     (callback_data b = None \<or> (\<exists>kvs. callback_data b = Some (PDict kvs)))"
  by (auto simp: skill_gui_flag_def split: option.splits pyval.splits)

lemma skill_gui_flag_error:
  "skill_gui_flag b = Inl e \<Longrightarrow> e = AttributeError"
  by (auto simp: skill_gui_flag_def split: option.splits pyval.splits)

lemma dispatch_outcome:
  assumes "skill_id (select_winner rnd b ties) = Some sid"
  shows "dispatch rnd p b ties s1 =
    (case skill_gui_flag b of
       Inl e \<Rightarrow> \<lparr>raised = Some e, actions = [], state = s1\<rparr>
     | Inr own_gui \<Rightarrow>
        \<lparr>raised = None,
         actions = (if \<not> own_gui then [Gui_show_page ''controls.qml''] else []) @
            [Emit_play_start sid p
               (case callback_data (select_winner rnd b ties) of None \<Rightarrow> PNone | Some v \<Rightarrow> v)],
         state = close_session p (s1\<lparr>has_played := True\<rparr>)\<rparr>)"
  using assms by (simp add: dispatch_def get_callback_data_def split: sum.splits)

text \<open>
  C2. Let the replies of the session for \<open>p\<close> be \<open>xs @ b # ys\<close> where \<open>b\<close> is the first
  bid of maximal confidence in arrival order (every reply before it is strictly below,
  every reply after it is at most equal) and some later reply has the same confidence,
  so that two or more bids share the maximum; the replies have \<^verbatim>\<open>conf\<close> and \<^verbatim>\<open>skill_id\<close>.
  Then the scan ends with \<open>best = b\<close> and with \<open>ties\<close> exactly the replies after \<open>b\<close>
  whose confidence equals that of \<open>b\<close>, in arrival order, and \<open>ties\<close> is not empty.
  Whatever number \<open>rnd\<close> the random source draws, the selected bid \<open>w\<close> is an element of
  \<open>ties\<close> or is \<open>b\<close> and has the maximal confidence, and every \<^verbatim>\<open>play:start\<close> event the
  handler emits carries the \<^verbatim>\<open>skill_id\<close> of \<open>w\<close>, the phrase \<open>p\<close> and the \<^verbatim>\<open>callback_data\<close> of
  \<open>w\<close> (\<^verbatim>\<open>None\<close> when \<open>w\<close> has none). The handler ends without an exception exactly when
  the \<^verbatim>\<open>callback_data\<close> of \<open>b\<close> is absent or a dictionary; then it emits that event, sets
  \<^verbatim>\<open>has_played\<close> and closes the session. Otherwise it raises \<^verbatim>\<open>AttributeError\<close> and
  dispatches nothing.
\<close>

theorem tie_break_among_maximal:
  assumes "phrase (data m) = Some p"
    and "query_replies s p = Some (xs @ b # ys)"
    and "\<forall>x\<in>set xs. well_formed_bid x \<and> the (conf x) < cb"
    and "conf b = Some cb" and "skill_id b \<noteq> None"
    and "\<forall>y\<in>set ys. well_formed_bid y \<and> the (conf y) \<le> cb"
    and "\<exists>y\<in>set ys. conf y = Some cb"
  shows "let ties = filter (\<lambda>y. conf y = Some cb) ys; w = select_winner rnd b ties;
             out = play_query_timeout rnd m s in
         scan (xs @ b # ys) None [] = Inr (Some b, ties) \<and> ties \<noteq> [] \<and>
         w \<in> set ties \<union> {b} \<and> conf w = Some cb \<and>
         (\<forall>sid' p' cd. Emit_play_start sid' p' cd \<in> set (actions out) \<longrightarrow>
            skill_id w = Some sid' \<and> p' = p \<and>
            cd = (case callback_data w of None \<Rightarrow> PNone | Some v \<Rightarrow> v)) \<and>
         (raised out = None) =
            (callback_data b = None \<or> (\<exists>kvs. callback_data b = Some (PDict kvs))) \<and>
         (raised out = None \<longrightarrow>
            (\<exists>sid'. skill_id w = Some sid' \<and>
               Emit_play_start sid' p (case callback_data w of None \<Rightarrow> PNone | Some v \<Rightarrow> v)
                 \<in> set (actions out)) \<and>
            state out = close_session p (s\<lparr>has_played := True\<rparr>)) \<and>
         (raised out \<noteq> None \<longrightarrow> raised out = Some AttributeError \<and> actions out = [])"
proof -
  define ties where "ties = filter (\<lambda>y. conf y = Some cb) ys"
  define w where "w = select_winner rnd b ties"
  define out where "out = play_query_timeout rnd m s"
  let ?cd = "case callback_data w of None \<Rightarrow> PNone | Some v \<Rightarrow> v"
  have sc: "scan (xs @ b # ys) None [] = Inr (Some b, ties)"
    unfolding ties_def by (rule scan_first_max[OF assms(3,4,5,6)])
  have ne: "ties \<noteq> []"
    using assms(7) by (auto simp: ties_def filter_empty_conv)
  have mem: "w \<in> set ties \<union> {b}"
    unfolding w_def by (rule select_winner_mem)
  have wf: "well_formed_bid w \<and> conf w = Some cb"
    using mem assms(4,5,6) by (auto simp: ties_def well_formed_bid_def)
  then obtain sid where sid: "skill_id w = Some sid"
    by (auto simp: well_formed_bid_def)
  have out: "out =
    (case skill_gui_flag b of
       Inl e \<Rightarrow> \<lparr>raised = Some e, actions = [],
                 state = s\<lparr>query_extensions := (query_extensions s)(p \<mapsto> [])\<rparr>\<rparr>
     | Inr own_gui \<Rightarrow>
        \<lparr>raised = None,
         actions = (if \<not> own_gui then [Gui_show_page ''controls.qml''] else []) @
            [Emit_play_start sid p ?cd],
         state = close_session p (s\<lparr>has_played := True\<rparr>)\<rparr>)"
    unfolding out_def timeout_dispatches[OF assms(1,2) sc, of rnd]
    using dispatch_outcome[of rnd b ties sid p] sid
    by (simp add: w_def[symmetric] close_after_reset_played split: sum.splits)
  have emit: "\<forall>sid' p' cd. Emit_play_start sid' p' cd \<in> set (actions out) \<longrightarrow>
            skill_id w = Some sid' \<and> p' = p \<and> cd = ?cd"
    using sid by (auto simp: out split: sum.splits if_splits)
  have ok: "(raised out = None) =
            (callback_data b = None \<or> (\<exists>kvs. callback_data b = Some (PDict kvs)))"
    using skill_gui_flag_ok[of b] by (auto simp: out split: sum.splits)
  have good: "raised out = None \<longrightarrow>
            (\<exists>sid'. skill_id w = Some sid' \<and> Emit_play_start sid' p ?cd \<in> set (actions out)) \<and>
            state out = close_session p (s\<lparr>has_played := True\<rparr>)"
    using sid by (auto simp: out split: sum.splits)
  have bad: "raised out \<noteq> None \<longrightarrow> raised out = Some AttributeError \<and> actions out = []"
    using skill_gui_flag_error[of b] by (auto simp: out split: sum.splits)
  from sc ne mem wf emit ok good bad show ?thesis
    unfolding Let_def ties_def[symmetric] w_def[symmetric] out_def[symmetric] by blast
qed

text \<open>
  Five bids for "rock": B, C and E share the maximum 0.9. The scan keeps B as \<open>best\<close>
  and C, E as \<open>ties\<close>; the draw 1 picks E from the list C, E, B, and \<^verbatim>\<open>play:start\<close> goes
  to E.
\<close>

theorem tie_break_among_maximal_witness:
  "scan [bid ''rock'' ''A'' 0.5 None, bid ''rock'' ''B'' 0.9 None, bid ''rock'' ''C'' 0.9 None,
         bid ''rock'' ''D'' 0.3 None, bid ''rock'' ''E'' 0.9 None] None []
     = Inr (Some (bid ''rock'' ''B'' 0.9 None),
            [bid ''rock'' ''C'' 0.9 None, bid ''rock'' ''E'' 0.9 None]) \<and>
   raised (play_query_timeout 1 (msg (timeout_data ''rock''))
       (session ''rock''
          [bid ''rock'' ''A'' 0.5 None, bid ''rock'' ''B'' 0.9 None, bid ''rock'' ''C'' 0.9 None,
           bid ''rock'' ''D'' 0.3 None, bid ''rock'' ''E'' 0.9 None] [])) = None \<and>
   Emit_play_start ''E'' ''rock'' PNone \<in> set (actions
     (play_query_timeout 1 (msg (timeout_data ''rock''))
       (session ''rock''
          [bid ''rock'' ''A'' 0.5 None, bid ''rock'' ''B'' 0.9 None, bid ''rock'' ''C'' 0.9 None,
           bid ''rock'' ''D'' 0.3 None, bid ''rock'' ''E'' 0.9 None] []))) \<and>
   state (play_query_timeout 1 (msg (timeout_data ''rock''))
       (session ''rock''
          [bid ''rock'' ''A'' 0.5 None, bid ''rock'' ''B'' 0.9 None, bid ''rock'' ''C'' 0.9 None,
           bid ''rock'' ''D'' 0.3 None, bid ''rock'' ''E'' 0.9 None] []))
     = init_engine\<lparr>has_played := True\<rparr>"
proof -
  let ?A = "bid ''rock'' ''A'' 0.5 None"
  let ?B = "bid ''rock'' ''B'' 0.9 None"
  let ?C = "bid ''rock'' ''C'' 0.9 None"
  let ?D = "bid ''rock'' ''D'' 0.3 None"
  let ?E = "bid ''rock'' ''E'' 0.9 None"
  have before: "\<forall>x\<in>set [?A]. well_formed_bid x \<and> the (conf x) < 0.9"
    by (simp add: bid_well_formed bid_simps)
  have after: "\<forall>y\<in>set [?C, ?D, ?E]. well_formed_bid y \<and> the (conf y) \<le> 0.9"
    by (simp add: bid_well_formed bid_simps)
  have tie: "\<exists>y\<in>set [?C, ?D, ?E]. conf y = Some 0.9"
    by (simp add: bid_simps)
  have ties: "filter (\<lambda>y. conf y = Some 0.9) [?C, ?D, ?E] = [?C, ?E]"
    by (simp add: bid_def)
  have sel: "select_winner 1 ?B [?C, ?E] = ?E"
    by (simp add: select_winner_def random_choice_def)
  have E: "skill_id ?E = Some ''E''" "callback_data ?E = None" "callback_data ?B = None"
    by (simp_all add: bid_def)
  show ?thesis
    using tie_break_among_maximal[of "msg (timeout_data ''rock'')" "''rock''"
        "session ''rock'' [?A, ?B, ?C, ?D, ?E] []" "[?A]" ?B "[?C, ?D, ?E]" "0.9" 1,
        OF _ _ before _ _ after tie]
      close_example_session[of "''rock''" "[?A, ?B, ?C, ?D, ?E]" "[]"]
    unfolding Let_def ties sel E
    by (simp add: msg_def timeout_data_def session_simps bid_simps)
qed

text \<open>
  What decides the generic page: when the dispatch succeeds, \<^verbatim>\<open>controls.qml\<close> is shown
  if and only if the \<^verbatim>\<open>skill_gui\<close> flag of \<open>best\<close> is not true, whichever bid is selected.
\<close>

lemma generic_page_decided_by_best:
  assumes "skill_gui_flag b = Inr own_gui"
    and "skill_id (select_winner rnd b ties) = Some sid"
  shows "(Gui_show_page ''controls.qml'' \<in> set (actions (dispatch rnd p b ties s1)))
           = (\<not> own_gui)"
  using assms by (simp add: dispatch_def)

text \<open>
  C3. The generic page \<^verbatim>\<open>controls.qml\<close> should be shown exactly when the selected bid
  does not announce a GUI of its own. The handler tests the \<^verbatim>\<open>skill_gui\<close> flag of
  \<open>best\<close>, not of the selected bid. Two bids for "rock" tie at 0.5: A, without
  \<^verbatim>\<open>callback_data\<close>, arrives first and becomes \<open>best\<close>; B, whose \<^verbatim>\<open>callback_data\<close> sets
  \<^verbatim>\<open>skill_gui\<close>, is the tie. The draw 0 selects B from the list B, A, and the handler
  shows the generic page although the flag of the selected bid B is true.
\<close>

theorem generic_page_follows_best:
  "select_winner 0 (bid ''rock'' ''A'' 0.5 None) [bid ''rock'' ''B'' 0.5 (Some own_gui_data)]
     = bid ''rock'' ''B'' 0.5 (Some own_gui_data) \<and>
   skill_gui_flag (bid ''rock'' ''B'' 0.5 (Some own_gui_data)) = Inr True \<and>
   play_query_timeout 0 (msg (timeout_data ''rock''))
       (session ''rock''
          [bid ''rock'' ''A'' 0.5 None, bid ''rock'' ''B'' 0.5 (Some own_gui_data)] [])
     = \<lparr>raised = None,
        actions = [Gui_show_page ''controls.qml'', Emit_play_start ''B'' ''rock'' own_gui_data],
        state = init_engine\<lparr>has_played := True\<rparr>\<rparr>"
proof -
  let ?A = "bid ''rock'' ''A'' 0.5 None"
  let ?B = "bid ''rock'' ''B'' 0.5 (Some own_gui_data)"
  have sel: "select_winner 0 ?A [?B] = ?B"
    by (simp add: select_winner_def random_choice_def)
  have flagB: "skill_gui_flag ?B = Inr True"
    by (simp add: skill_gui_flag_def bid_def own_gui_data_def)
  have flagA: "skill_gui_flag ?A = Inr False"
    by (simp add: skill_gui_flag_def bid_def)
  have sc: "scan [?A, ?B] None [] = Inr (Some ?A, [?B])"
    by (simp add: bid_def)
  have "dispatch 0 ''rock'' ?A [?B] s1 =
          \<lparr>raised = None,
           actions = [Gui_show_page ''controls.qml'', Emit_play_start ''B'' ''rock'' own_gui_data],
           state = close_session ''rock'' (s1\<lparr>has_played := True\<rparr>)\<rparr>" for s1
    unfolding dispatch_def sel flagA by (simp add: bid_def get_callback_data_def)
  then have "play_query_timeout 0 (msg (timeout_data ''rock'')) (session ''rock'' [?A, ?B] [])
     = \<lparr>raised = None,
        actions = [Gui_show_page ''controls.qml'', Emit_play_start ''B'' ''rock'' own_gui_data],
        state = init_engine\<lparr>has_played := True\<rparr>\<rparr>"
    using timeout_dispatches[of "msg (timeout_data ''rock'')" "''rock''"
        "session ''rock'' [?A, ?B] []" "[?A, ?B]" ?A "[?B]" 0, OF _ _ sc]
      close_example_session[of "''rock''" "[?A, ?B]" "[]"]
    by (simp add: msg_def timeout_data_def session_def close_after_reset_played)
  with sel flagB show ?thesis
    by simp
qed

section \<open>Resolution without replies, and without a session\<close>

text \<open>
  C8. When the timeout fires for a phrase \<open>p\<close> whose replies list is empty, the handler
  raises nothing, emits no \<^verbatim>\<open>play:start\<close>: its only possible call is the spoken
  \<^verbatim>\<open>cant.play\<close> notice, made exactly when \<^verbatim>\<open>neon_in_request\<close> holds for the message. It
  leaves \<^verbatim>\<open>has_played\<close> as it was and removes \<open>p\<close> from both session tables.
\<close>

theorem no_match_resolution:
  assumes "phrase (data m) = Some p" and "query_replies s p = Some []"
  shows "play_query_timeout rnd m s =
           \<lparr>raised = None,
            actions = (if neon_in_request m
                       then [Speak_dialog ''cant.play'' [(''phrase'', p)]] else []),
            state = close_session p s\<rparr> \<and>
         has_played (close_session p s) = has_played s \<and>
         query_replies (close_session p s) p = None \<and>
         query_extensions (close_session p s) p = None"
  using assms by (simp add: play_query_timeout_def close_after_reset) (simp add: close_session_def)

text \<open>The scenario "rock": nobody answers, the timeout finds an empty replies list.\<close>

theorem no_match_resolution_witness:
  "play_query_timeout 0 (msg (timeout_data ''rock'')) (session ''rock'' [] [])
     = \<lparr>raised = None, actions = [Speak_dialog ''cant.play'' [(''phrase'', ''rock'')]],
        state = init_engine\<rparr>"
proof -
  have "close_session ''rock'' (session ''rock'' [] []) = init_engine"
    by (simp add: close_session_def session_def init_engine_def clear_gui_info_def)
  then show ?thesis
    using no_match_resolution[of "msg (timeout_data ''rock'')" "''rock''"
        "session ''rock'' [] []" 0]
    by (simp add: msg_def timeout_data_def session_simps)
qed

text \<open>
  Besides a missing replies list, two kinds of reply make the handler raise: a reply
  without \<^verbatim>\<open>conf\<close> or \<^verbatim>\<open>skill_id\<close> (in the scan), and a \<open>best\<close> whose \<^verbatim>\<open>callback_data\<close> is
  present but not a dictionary, Python's \<^verbatim>\<open>None\<close> included (in the GUI test).
\<close>

lemma malformed_reply_raises:
  "h \<in> set rs \<Longrightarrow> \<not> well_formed_bid h \<Longrightarrow> \<exists>e. scan rs best ties = Inl e"
  by (induction rs arbitrary: best ties)
    (auto simp: well_formed_bid_def split: option.splits)

lemma null_callback_data_raises:
  "raised (play_query_timeout rnd (msg (timeout_data ''jazz''))
             (session ''jazz'' [bid ''jazz'' ''A'' 0.6 (Some PNone)] []))
     = Some AttributeError"
  by (simp add: play_query_timeout_def dispatch_def skill_gui_flag_def msg_def
      timeout_data_def session_simps bid_def)

text \<open>
  C7. The timeout handler should end without an exception for every message, also when
  the phrase of the message has no open session. It does not: the loop header indexes
  \<^verbatim>\<open>query_replies\<close> with the phrase unguarded, while the \<^verbatim>\<open>del\<close> statements at the end of
  the same handler are guarded by \<^verbatim>\<open>in\<close>. \<^verbatim>\<open>play\<close> schedules a timeout without cancelling
  the one scheduled before; two requests for "jazz" followed by the first timeout leave
  the engine in its initial state, with no session for "jazz" (the run below). A
  timeout for "jazz" that fires in that state finds no replies list and leaves the
  handler with \<^verbatim>\<open>KeyError\<close>, an empty pending-extensions list for "jazz" staying behind.
\<close>

theorem timeout_without_session_raises:
  "run [Play False (Inr ''jazz''), Play False (Inr ''jazz''),
        Query_timeout 0 (msg (timeout_data ''jazz''))] init_engine = init_engine \<and>
   play_query_timeout rnd (msg (timeout_data ''jazz'')) init_engine =
     \<lparr>raised = Some KeyError, actions = [],
      state = init_engine\<lparr>query_extensions := [''jazz'' \<mapsto> []]\<rparr>\<rparr>"
  by (simp add: play_def play_query_timeout_def close_session_def msg_def timeout_data_def
      init_engine_def clear_gui_info_def)

section \<open>Bids and extension signals\<close>

lemma response_extension_branch:
  assumes "phrase (data m) = Some p" and "searching (data m) = Some flag"
    and "query_extensions s p = Some exts"
  shows "handle_play_query_response m s = manage_extension p flag exts (data m) s"
  using assms by (simp add: handle_play_query_response_def)

lemma response_bid_branch:
  assumes "phrase (data m) = Some p" and "searching (data m) = None"
  shows "handle_play_query_response m s =
           (case query_replies s p of
              Some rs \<Rightarrow> collect_reply p rs (data m) s
            | None \<Rightarrow> \<lparr>raised = None, actions = [], state = s\<rparr>)"
  using assms by (simp add: handle_play_query_response_def split: option.splits)

text \<open>Removing \<open>sid\<close> empties the list exactly when \<open>sid\<close> is its only element.\<close>

lemma only_holder: "(sid \<in> set exts \<and> remove1 sid exts = []) = (exts = [sid])"
  by (cases exts) (auto split: if_splits)

text \<open>
  C4. Let \<open>p\<close> have an open session with pending extensions \<open>exts\<close> and replies \<open>rs\<close>, and
  let the event of provider \<open>sid\<close> be a final bid (no \<^verbatim>\<open>searching\<close> key) or an extension
  signal whose \<^verbatim>\<open>searching\<close> value is false. The handler cancels and reschedules
  \<^verbatim>\<open>PlayQueryTimeout\<close> exactly when \<open>sid\<close> was the only pending holder, so that removing it
  empties the list: at delay 0 for the final bid and at delay 1 for the signal. In every
  other case (other holders remain, or \<open>sid\<close> was not pending) it makes no call to the
  scheduler. In all cases it raises nothing, emits no \<^verbatim>\<open>play:start\<close>, leaves
  \<^verbatim>\<open>has_played\<close> alone and keeps the session open: \<open>p\<close> stays in both tables, its pending
  list without the first \<open>sid\<close>, its replies extended by the bid only.
\<close>

theorem last_holder_reschedules:
  assumes "phrase (data m) = Some p" and "skill_id (data m) = Some sid"
    and "query_extensions s p = Some exts" and "query_replies s p = Some rs"
    and "searching (data m) = None \<or> (\<exists>flag. searching (data m) = Some flag \<and> \<not> truthy flag)"
  shows "let final_bid = (searching (data m) = None);
             out = handle_play_query_response m s in
         raised out = None \<and>
         actions out =
           (if exts = [sid]
            then [Cancel_scheduled_event ''PlayQueryTimeout'',
                  Schedule_event ''PlayQueryTimeout'' (if final_bid then 0 else 1) p]
            else []) \<and>
         query_extensions (state out) p = Some (remove1 sid exts) \<and>
         query_replies (state out) p = Some (if final_bid then rs @ [data m] else rs) \<and>
         has_played (state out) = has_played s"
proof (cases "searching (data m)")
  case None
  then show ?thesis
    using assms(1-4) only_holder[of sid exts]
    by (auto simp: response_bid_branch collect_reply_def Let_def remove1_idem)
next
  case (Some flag)
  with assms(5) have "\<not> truthy flag"
    by simp
  then show ?thesis
    using Some assms(1-4) only_holder[of sid exts]
    by (auto simp: response_extension_branch manage_extension_def Let_def remove1_idem)
qed

text \<open>
  The scenario "news": A is the only provider still searching. Its "done searching"
  signal reschedules at 1, its final bid reschedules at 0 and is recorded; with B also
  pending, the signal of A makes no call to the scheduler and B stays pending.
\<close>

theorem last_holder_reschedules_witness:
  "actions (handle_play_query_response (msg (extension_signal ''news'' ''A'' False))
              (session ''news'' [] [''A'']))
     = [Cancel_scheduled_event ''PlayQueryTimeout'',
        Schedule_event ''PlayQueryTimeout'' 1 ''news''] \<and>
   actions (handle_play_query_response (msg (bid ''news'' ''A'' 0.7 None))
              (session ''news'' [] [''A'']))
     = [Cancel_scheduled_event ''PlayQueryTimeout'',
        Schedule_event ''PlayQueryTimeout'' 0 ''news''] \<and>
   query_replies (state (handle_play_query_response (msg (bid ''news'' ''A'' 0.7 None))
              (session ''news'' [] [''A''])))  ''news'' = Some [bid ''news'' ''A'' 0.7 None] \<and>
   actions (handle_play_query_response (msg (extension_signal ''news'' ''A'' False))
              (session ''news'' [] [''A'', ''B''])) = [] \<and>
   query_extensions (state (handle_play_query_response
              (msg (extension_signal ''news'' ''A'' False))
              (session ''news'' [] [''A'', ''B'']))) ''news'' = Some [''B'']"
proof -
  have stop: "actions (handle_play_query_response (msg (extension_signal ''news'' ''A'' False))
              (session ''news'' [] [''A'']))
     = [Cancel_scheduled_event ''PlayQueryTimeout'',
        Schedule_event ''PlayQueryTimeout'' 1 ''news'']"
    using last_holder_reschedules[of "msg (extension_signal ''news'' ''A'' False)" "''news''"
        "''A''" "session ''news'' [] [''A'']" "[''A'']" "[]"]
    by (simp add: msg_def extension_signal_def session_simps Let_def)
  have final: "actions (handle_play_query_response (msg (bid ''news'' ''A'' 0.7 None))
              (session ''news'' [] [''A'']))
     = [Cancel_scheduled_event ''PlayQueryTimeout'',
        Schedule_event ''PlayQueryTimeout'' 0 ''news'']
     \<and> query_replies (state (handle_play_query_response (msg (bid ''news'' ''A'' 0.7 None))
              (session ''news'' [] [''A''])))  ''news'' = Some [bid ''news'' ''A'' 0.7 None]"
    using last_holder_reschedules[of "msg (bid ''news'' ''A'' 0.7 None)" "''news''" "''A''"
        "session ''news'' [] [''A'']" "[''A'']" "[]"]
    by (simp add: msg_def bid_def session_simps Let_def)
  have others: "actions (handle_play_query_response
              (msg (extension_signal ''news'' ''A'' False))
              (session ''news'' [] [''A'', ''B''])) = [] \<and>
   query_extensions (state (handle_play_query_response
              (msg (extension_signal ''news'' ''A'' False))
              (session ''news'' [] [''A'', ''B'']))) ''news'' = Some [''B'']"
    using last_holder_reschedules[of "msg (extension_signal ''news'' ''A'' False)" "''news''"
        "''A''" "session ''news'' [] [''A'', ''B'']" "[''A'', ''B'']" "[]"]
    by (simp add: msg_def extension_signal_def session_simps Let_def)
  from stop final others show ?thesis
    by simp
qed

text \<open>No handler puts a provider twice into a pending-extensions list.\<close>

lemma play_distinct: "extensions_distinct s \<Longrightarrow> extensions_distinct (state (play h e s))"
  by (auto simp: play_def extensions_distinct_def split: sum.splits)

lemma manage_extension_distinct:
  "query_extensions s p = Some exts \<Longrightarrow> extensions_distinct s \<Longrightarrow>
   extensions_distinct (state (manage_extension p flag exts d s))"
  by (auto simp: manage_extension_def extensions_distinct_def split: option.splits)

lemma collect_reply_distinct:
  "extensions_distinct s \<Longrightarrow> extensions_distinct (state (collect_reply p rs d s))"
  by (auto simp: collect_reply_def extensions_distinct_def Let_def split: option.splits)

lemma response_distinct:
  "extensions_distinct s \<Longrightarrow> extensions_distinct (state (handle_play_query_response m s))"
  by (auto simp: handle_play_query_response_def manage_extension_distinct
      collect_reply_distinct split: option.splits)

lemma dispatch_distinct:
  "extensions_distinct s \<Longrightarrow>
   extensions_distinct
     (state (dispatch rnd p b ties (s\<lparr>query_extensions := (query_extensions s)(p \<mapsto> [])\<rparr>)))"
  by (auto simp: dispatch_def extensions_distinct_def close_session_def Let_def
      split: option.splits sum.splits)

lemma timeout_distinct:
  assumes inv: "extensions_distinct s"
  shows "extensions_distinct (state (play_query_timeout rnd m s))"
proof (cases "phrase (data m)")
  case None
  then show ?thesis
    using inv by (simp add: play_query_timeout_def)
next
  case (Some p)
  let ?s1 = "s\<lparr>query_extensions := (query_extensions s)(p \<mapsto> [])\<rparr>"
  have inv1: "extensions_distinct ?s1"
    using inv by (auto simp: extensions_distinct_def)
  have inv2: "extensions_distinct (close_session p ?s1)"
    using inv by (auto simp: extensions_distinct_def close_session_def)
  show ?thesis
    using Some inv1 inv2 dispatch_distinct[OF inv]
    by (auto simp: play_query_timeout_def Let_def split: option.splits sum.splits prod.splits)
qed

lemma exec_distinct: "extensions_distinct s \<Longrightarrow> extensions_distinct (state (exec e s))"
  by (cases e) (simp_all add: play_distinct response_distinct timeout_distinct)

lemma run_distinct: "extensions_distinct s \<Longrightarrow> extensions_distinct (run evs s)"
  by (induction evs arbitrary: s) (simp_all add: exec_distinct)

lemma init_distinct: "extensions_distinct init_engine"
  by (simp add: extensions_distinct_def init_engine_def clear_gui_info_def)

text \<open>
  C5. Let the event of provider \<open>sid\<close> be an extension signal whose \<^verbatim>\<open>searching\<close> value is
  true, for a phrase \<open>p\<close> with pending extensions \<open>exts\<close>. The handler raises nothing,
  cancels \<^verbatim>\<open>PlayQueryTimeout\<close> and schedules it again at delay 5, and the pending list
  becomes \<open>exts\<close> itself when \<open>sid\<close> is in it and \<open>exts\<close> with \<open>sid\<close> appended otherwise.
  Handling the same signal once more leaves the state as it is. A state whose pending
  lists hold no provider twice stays so, and every state the engine reaches from its
  initial state by \<^verbatim>\<open>play\<close>, responses and timeouts is of that kind.
\<close>

theorem extension_request_extends:
  assumes "phrase (data m) = Some p" and "skill_id (data m) = Some sid"
    and "searching (data m) = Some flag" and "truthy flag"
    and "query_extensions s p = Some exts"
  shows "let out = handle_play_query_response m s in
         raised out = None \<and>
         actions out = [Cancel_scheduled_event ''PlayQueryTimeout'',
                        Schedule_event ''PlayQueryTimeout'' 5 p] \<and>
         query_extensions (state out) p = Some (if sid \<in> set exts then exts else exts @ [sid]) \<and>
         state (handle_play_query_response m (state out)) = state out \<and>
         (extensions_distinct s \<longrightarrow> extensions_distinct (state out)) \<and>
         (\<forall>evs. extensions_distinct (run evs init_engine))"
proof -
  let ?out = "handle_play_query_response m s"
  have out: "?out = manage_extension p flag exts (data m) s"
    by (rule response_extension_branch[OF assms(1,3,5)])
  have ext: "query_extensions (state ?out) p
               = Some (if sid \<in> set exts then exts else exts @ [sid])"
    using assms(2,4,5) by (simp add: out manage_extension_def)
  have again: "handle_play_query_response m (state ?out) =
      manage_extension p flag (if sid \<in> set exts then exts else exts @ [sid]) (data m)
        (state ?out)"
    by (rule response_extension_branch[OF assms(1,3) ext])
  have idem: "state (handle_play_query_response m (state ?out)) = state ?out"
    unfolding again using assms(2,4) by (simp add: manage_extension_def)
  have "raised ?out = None"
    and "actions ?out = [Cancel_scheduled_event ''PlayQueryTimeout'',
                         Schedule_event ''PlayQueryTimeout'' 5 p]"
    using assms(2,4) by (simp_all add: out manage_extension_def)
  with ext idem response_distinct[of s m] run_distinct[OF init_distinct] show ?thesis
    by (simp add: Let_def)
qed

text \<open>
  The scenario "news": the first "still searching" signal of A extends the timeout to 5
  and registers A; a second one leaves A registered once.
\<close>

theorem extension_request_extends_witness:
  "actions (handle_play_query_response (msg (extension_signal ''news'' ''A'' True))
              (session ''news'' [] []))
     = [Cancel_scheduled_event ''PlayQueryTimeout'',
        Schedule_event ''PlayQueryTimeout'' 5 ''news''] \<and>
   query_extensions (state (handle_play_query_response
              (msg (extension_signal ''news'' ''A'' True))
              (session ''news'' [] []))) ''news'' = Some [''A''] \<and>
   query_extensions (state (handle_play_query_response
              (msg (extension_signal ''news'' ''A'' True))
              (session ''news'' [] [''A'']))) ''news'' = Some [''A'']"
proof -
  have first: "actions (handle_play_query_response (msg (extension_signal ''news'' ''A'' True))
              (session ''news'' [] []))
     = [Cancel_scheduled_event ''PlayQueryTimeout'',
        Schedule_event ''PlayQueryTimeout'' 5 ''news''] \<and>
   query_extensions (state (handle_play_query_response
              (msg (extension_signal ''news'' ''A'' True))
              (session ''news'' [] []))) ''news'' = Some [''A'']"
    using extension_request_extends[of "msg (extension_signal ''news'' ''A'' True)" "''news''"
        "''A''" "PBool True" "session ''news'' [] []" "[]"]
    by (simp add: msg_def extension_signal_def session_simps Let_def)
  have second: "query_extensions (state (handle_play_query_response
        (msg (extension_signal ''news'' ''A'' True)) (session ''news'' [] [''A'']))) ''news''
      = Some [''A'']"
    using extension_request_extends[of "msg (extension_signal ''news'' ''A'' True)" "''news''"
        "''A''" "PBool True" "session ''news'' [] [''A'']" "[''A'']"]
    by (simp add: msg_def extension_signal_def session_simps Let_def)
  from first second show ?thesis
    by simp
qed

text \<open>
  C6. A bid (a response without a \<^verbatim>\<open>searching\<close> key) for a phrase \<open>p\<close> that has no replies
  list raises nothing, makes no call and returns the state it found: the session tables,
  \<^verbatim>\<open>has_played\<close> and the GUI cache are unchanged and the scheduler is not touched. Hence
  whatever events follow, the engine ends in the state it would have reached had the bid
  never arrived, so the bid is in no later session's replies.
\<close>

theorem late_bid_ignored:
  assumes "phrase (data m) = Some p" and "searching (data m) = None"
    and "query_replies s p = None"
  shows "handle_play_query_response m s = \<lparr>raised = None, actions = [], state = s\<rparr> \<and>
         (\<forall>evs. run (Query_response m # evs) s = run evs s)"
  using assms by (simp add: response_bid_branch)

text \<open>
  A bid for "jazz" reaches the engine while no session is open; the session that the
  next request opens for "jazz" starts with no replies.
\<close>

theorem late_bid_ignored_witness:
  "handle_play_query_response (msg (bid ''jazz'' ''A'' 0.6 None)) init_engine
     = \<lparr>raised = None, actions = [], state = init_engine\<rparr> \<and>
   query_replies (run [Query_response (msg (bid ''jazz'' ''A'' 0.6 None)),
                       Play False (Inr ''jazz'')] init_engine) ''jazz'' = Some []"
proof -
  have "query_replies (run [Play False (Inr ''jazz'')] init_engine) ''jazz'' = Some []"
    by (simp add: play_def)
  then show ?thesis
    using late_bid_ignored[of "msg (bid ''jazz'' ''A'' 0.6 None)" "''jazz''" init_engine]
    by (simp add: msg_def bid_def init_engine_simps)
qed

section \<open>The invariant of the session tables\<close>

lemma play_session_inv: "session_inv s \<Longrightarrow> session_inv (state (play h e s))"
  by (auto simp: play_def session_inv_def split: sum.splits)

lemma manage_extension_session_inv:
  "query_extensions s p = Some exts \<Longrightarrow> session_inv s \<Longrightarrow>
   session_inv (state (manage_extension p flag exts d s))"
  by (auto simp: manage_extension_def session_inv_def split: option.splits)

lemma collect_reply_session_inv:
  "query_replies s p = Some rs \<Longrightarrow> session_inv s \<Longrightarrow>
   session_inv (state (collect_reply p rs d s))"
  by (auto simp: collect_reply_def session_inv_def Let_def split: option.splits)

lemma response_session_inv:
  "session_inv s \<Longrightarrow> session_inv (state (handle_play_query_response m s))"
  by (auto simp: handle_play_query_response_def manage_extension_session_inv
      collect_reply_session_inv split: option.splits)

lemma dispatch_session_inv:
  "session_inv s \<Longrightarrow>
   session_inv
     (state (dispatch rnd p b ties (s\<lparr>query_extensions := (query_extensions s)(p \<mapsto> [])\<rparr>)))"
  by (auto simp: dispatch_def session_inv_def close_session_def Let_def
      split: option.splits sum.splits)

lemma timeout_session_inv:
  assumes inv: "session_inv s"
  shows "session_inv (state (play_query_timeout rnd m s))"
proof (cases "phrase (data m)")
  case None
  then show ?thesis
    using inv by (simp add: play_query_timeout_def)
next
  case (Some p)
  let ?s1 = "s\<lparr>query_extensions := (query_extensions s)(p \<mapsto> [])\<rparr>"
  have inv1: "session_inv ?s1"
    using inv by (auto simp: session_inv_def)
  have inv2: "session_inv (close_session p ?s1)"
    using inv by (auto simp: session_inv_def close_session_def)
  show ?thesis
    using Some inv1 inv2 dispatch_session_inv[OF inv]
    by (auto simp: play_query_timeout_def Let_def split: option.splits sum.splits prod.splits)
qed

lemma exec_session_inv: "session_inv s \<Longrightarrow> session_inv (state (exec e s))"
  by (cases e) (simp_all add: play_session_inv response_session_inv timeout_session_inv)

lemma init_session_inv: "session_inv init_engine"
  by (simp add: session_inv_def init_engine_def clear_gui_info_def)

lemma run_session_inv: "session_inv s \<Longrightarrow> session_inv (run evs s)"
  by (induction evs arbitrary: s) (simp_all add: exec_session_inv)

text \<open>
  Under the invariant a response that has its \<^verbatim>\<open>phrase\<close> and \<^verbatim>\<open>skill_id\<close> keys cannot
  raise: the only indexing left is \<^verbatim>\<open>query_extensions[search_phrase]\<close> in the bid branch.
\<close>

lemma response_no_raise:
  assumes "session_inv s" and "phrase (data m) = Some p" and "skill_id (data m) = Some sid"
  shows "raised (handle_play_query_response m s) = None"
proof (cases "query_replies s p")
  case None
  with assms show ?thesis
    by (auto simp: handle_play_query_response_def manage_extension_def split: option.splits)
next
  case (Some rs)
  with assms(1) obtain exts where "query_extensions s p = Some exts"
    by (auto simp: session_inv_def)
  with Some assms show ?thesis
    by (auto simp: handle_play_query_response_def manage_extension_def collect_reply_def
        split: option.splits)
qed

text \<open>
  C9. The keys of \<^verbatim>\<open>query_replies\<close> are keys of \<^verbatim>\<open>query_extensions\<close> (\<open>session_inv\<close>) in
  the initial state; each of \<^verbatim>\<open>play\<close>, \<^verbatim>\<open>handle_play_query_response\<close> and
  \<^verbatim>\<open>_play_query_timeout\<close> keeps it, also when the handler is left by an exception; so it
  holds after every run of these operations from the initial state. In a state where it
  holds, a response that carries \<^verbatim>\<open>phrase\<close> and \<^verbatim>\<open>skill_id\<close> raises nothing: the
  unguarded \<^verbatim>\<open>query_extensions[search_phrase]\<close> of the bid branch finds its key.
\<close>

theorem replies_within_extensions:
  "session_inv init_engine \<and>
   (\<forall>s e. session_inv s \<longrightarrow> session_inv (state (exec e s))) \<and>
   (\<forall>evs. session_inv (run evs init_engine)) \<and>
   (\<forall>s m. session_inv s \<and> phrase (data m) \<noteq> None \<and> skill_id (data m) \<noteq> None \<longrightarrow>
      raised (handle_play_query_response m s) = None)"
  using init_session_inv exec_session_inv run_session_inv response_no_raise by auto

text \<open>
  After a request for "jazz", an extension signal and a bid of A, the invariant holds
  and the bid of B is recorded without an exception.
\<close>

theorem replies_within_extensions_witness:
  "session_inv (run [Play False (Inr ''jazz''),
                     Query_response (msg (extension_signal ''jazz'' ''A'' True)),
                     Query_response (msg (bid ''jazz'' ''A'' 0.6 None))] init_engine) \<and>
   raised (handle_play_query_response (msg (bid ''jazz'' ''B'' 0.9 None))
     (run [Play False (Inr ''jazz''),
           Query_response (msg (extension_signal ''jazz'' ''A'' True)),
           Query_response (msg (bid ''jazz'' ''A'' 0.6 None))] init_engine)) = None"
proof -
  let ?evs = "[Play False (Inr ''jazz''),
               Query_response (msg (extension_signal ''jazz'' ''A'' True)),
               Query_response (msg (bid ''jazz'' ''A'' 0.6 None))]"
  let ?m = "msg (bid ''jazz'' ''B'' 0.9 None)"
  from replies_within_extensions have reach: "session_inv (run ?evs init_engine)"
    and safe: "session_inv (run ?evs init_engine) \<and> phrase (data ?m) \<noteq> None \<and>
                 skill_id (data ?m) \<noteq> None \<longrightarrow>
               raised (handle_play_query_response ?m (run ?evs init_engine)) = None"
    by blast+
  have "phrase (data ?m) \<noteq> None \<and> skill_id (data ?m) \<noteq> None"
    by (simp add: msg_def bid_simps)
  with reach safe show ?thesis
    by blast
qed

section \<open>Track information\<close>

lemma song_info_loop_changed:
  "distinct ks \<Longrightarrow>
   fst (song_info_loop ks md c g) = (c \<or> (\<exists>k\<in>set ks. g k \<noteq> Some (status_value md k)))"
proof (induction ks arbitrary: c g)
  case Nil
  then show ?case
    by simp
next
  case (Cons k ks)
  then have "\<forall>k'\<in>set ks. (g(k \<mapsto> status_value md k)) k' = g k'"
    by auto
  with Cons show ?case
    by (auto simp: Let_def split: option.splits)
qed

lemma song_info_loop_gui:
  "snd (song_info_loop ks md c g) k =
     (if k \<in> set ks then Some (status_value md k) else g k)"
  by (induction ks arbitrary: c g) (auto simp: Let_def)

lemma STATUS_KEYS_distinct: "distinct STATUS_KEYS"
  by (simp add: STATUS_KEYS_def)

lemma STATUS_KEYS_set: "set STATUS_KEYS = {''track'', ''artist'', ''album'', ''image''}"
  by (simp add: STATUS_KEYS_def)

text \<open>
  C10. For every payload \<open>md\<close> of a \<^verbatim>\<open>play:status\<close> message, whichever of the four fields
  \<^verbatim>\<open>track\<close>, \<^verbatim>\<open>artist\<close>, \<^verbatim>\<open>album\<close>, \<^verbatim>\<open>image\<close> it holds, \<^verbatim>\<open>handle_song_info\<close> gives its "changed"
  signal (the log line) if and only if for at least one of the four fields the cache
  does not hold the value the message has for it, where a field absent from the message
  has the empty string as its value (and a field the cache does not hold differs from
  every value). The signal shows the track, artist and image of the message. The
  handler raises nothing and leaves in the cache, for each of the four fields, the value
  of the message.
\<close>

theorem changed_signal:
  "(actions (handle_song_info md s) \<noteq> []) =
     (\<exists>k\<in>{''track'', ''artist'', ''album'', ''image''}.
        gui s k \<noteq> Some (case md k of None \<Rightarrow> '''' | Some v \<Rightarrow> v)) \<and>
   actions (handle_song_info md s) =
     (if \<exists>k\<in>{''track'', ''artist'', ''album'', ''image''}.
           gui s k \<noteq> Some (case md k of None \<Rightarrow> '''' | Some v \<Rightarrow> v)
      then [Log_track_info (case md ''track'' of None \<Rightarrow> '''' | Some v \<Rightarrow> v)
              (case md ''artist'' of None \<Rightarrow> '''' | Some v \<Rightarrow> v)
              (case md ''image'' of None \<Rightarrow> '''' | Some v \<Rightarrow> v)]
      else []) \<and>
   raised (handle_song_info md s) = None \<and>
   (\<forall>k. gui (state (handle_song_info md s)) k =
          (if k \<in> {''track'', ''artist'', ''album'', ''image''}
           then Some (case md k of None \<Rightarrow> '''' | Some v \<Rightarrow> v) else gui s k))"
proof -
  obtain changed g where loop: "song_info_loop STATUS_KEYS md False (gui s) = (changed, g)"
    by (cases "song_info_loop STATUS_KEYS md False (gui s)")
  have ch: "changed = (\<exists>k\<in>set STATUS_KEYS. gui s k \<noteq> Some (status_value md k))"
    using song_info_loop_changed[OF STATUS_KEYS_distinct, of md False "gui s"] loop by simp
  have g: "g k = (if k \<in> set STATUS_KEYS then Some (status_value md k) else gui s k)" for k
    using song_info_loop_gui[of STATUS_KEYS md False "gui s" k] loop by simp
  have c: "cached g ''track'' = status_value md ''track''"
    "cached g ''artist'' = status_value md ''artist''"
    "cached g ''image'' = status_value md ''image''"
    by (simp_all add: cached_def g STATUS_KEYS_def)
  have "(actions (handle_song_info md s) \<noteq> []) =
     (\<exists>k\<in>set STATUS_KEYS. gui s k \<noteq> Some (status_value md k)) \<and>
   actions (handle_song_info md s) =
     (if \<exists>k\<in>set STATUS_KEYS. gui s k \<noteq> Some (status_value md k)
      then [Log_track_info (status_value md ''track'') (status_value md ''artist'')
              (status_value md ''image'')]
      else []) \<and>
   raised (handle_song_info md s) = None \<and>
   (\<forall>k. gui (state (handle_song_info md s)) k =
          (if k \<in> set STATUS_KEYS then Some (status_value md k) else gui s k))"
    unfolding handle_song_info_def loop using ch g c by simp
  then show ?thesis
    unfolding STATUS_KEYS_set status_value_def .
qed

text \<open>
  On the initial cache (every field the empty string) a message with a track and an
  artist gives the signal; so does a message with an album only, which the cache then
  holds, and a message with an image only; a message with no field gives none.
\<close>

theorem changed_signal_witness:
  "actions (handle_song_info [''track'' \<mapsto> ''So What'', ''artist'' \<mapsto> ''Miles Davis'']
              init_engine)
     = [Log_track_info ''So What'' ''Miles Davis'' ''''] \<and>
   actions (handle_song_info [''album'' \<mapsto> ''Kind of Blue''] init_engine)
     = [Log_track_info '''' '''' ''''] \<and>
   gui (state (handle_song_info [''album'' \<mapsto> ''Kind of Blue''] init_engine)) ''album''
     = Some ''Kind of Blue'' \<and>
   actions (handle_song_info [''image'' \<mapsto> ''cover.png''] init_engine)
     = [Log_track_info '''' '''' ''cover.png''] \<and>
   actions (handle_song_info Map.empty init_engine) = []"
proof -
  have g: "gui init_engine =
             [''track'' \<mapsto> '''', ''artist'' \<mapsto> '''', ''album'' \<mapsto> '''', ''image'' \<mapsto> '''']"
    by (simp add: init_engine_def clear_gui_info_def STATUS_KEYS_def)
  have a: "actions (handle_song_info [''track'' \<mapsto> ''So What'', ''artist'' \<mapsto> ''Miles Davis'']
                      init_engine)
     = [Log_track_info ''So What'' ''Miles Davis'' '''']"
    using changed_signal[of "[''track'' \<mapsto> ''So What'', ''artist'' \<mapsto> ''Miles Davis'']"
        init_engine]
    by (simp add: g)
  have b: "actions (handle_song_info [''album'' \<mapsto> ''Kind of Blue''] init_engine)
     = [Log_track_info '''' '''' ''''] \<and>
     gui (state (handle_song_info [''album'' \<mapsto> ''Kind of Blue''] init_engine)) ''album''
     = Some ''Kind of Blue''"
    using changed_signal[of "[''album'' \<mapsto> ''Kind of Blue'']" init_engine]
    by (simp add: g)
  have c: "actions (handle_song_info [''image'' \<mapsto> ''cover.png''] init_engine)
     = [Log_track_info '''' '''' ''cover.png'']"
    using changed_signal[of "[''image'' \<mapsto> ''cover.png'']" init_engine]
    by (simp add: g)
  have d: "actions (handle_song_info Map.empty init_engine) = []"
    using changed_signal[of Map.empty init_engine]
    by (simp add: g)
  from a b c d show ?thesis
    by simp
qed

end
